theory Spec2Isabelle
  imports Main "HOL-Library.Word" "HOL-Library.Sublist" "HOL-Library.Multiset"
begin

text \<open>
  A shallow embedding of the Gerrit commit-message extractor: the credential loader
  (\<open>getGerritCredentials\<close>), the paginated fetch of merged changes
  (\<open>fetchMergedChanges\<close>) and the Markdown report built by \<open>main\<close>. Exceptions are
  values (\<open>Inl\<close> of a sum), loops are recursive functions, and what the program reads from
  its platform (the URL and JSON parsers, the file system, the clock, the date functions,
  the replies of the server) is a parameter. The first sections follow the source files;
  then come the notions of the specification, sample data, and the properties.
\<close>

section \<open>JavaScript strings\<close>

text \<open>
  A JavaScript string is a sequence of 16-bit code units. The program only ever compares
  strings, concatenates them, and cuts them at ASCII characters, so the model is a list of
  code units. \<open>js\<close> turns an Isabelle literal into such a list.
\<close>

type_synonym jschar = "16 word"
type_synonym jsstring = "jschar list"

definition js :: "string \<Rightarrow> jsstring" where
  "js s = map (\<lambda>c. word_of_nat (of_char c)) s"

definition TAB :: jschar where "TAB = 9"
definition NL :: jschar where "NL = 10"
definition HASH :: jschar where "HASH = 35"
definition DOT :: jschar where "DOT = 46"
definition EQUALS :: jschar where "EQUALS = 61"
definition BACKTICK :: jschar where "BACKTICK = 96"
definition APOSTROPHE :: jschar where "APOSTROPHE = 39"
definition DQUOTE :: jschar where "DQUOTE = 34"

text \<open>\<open>s.startsWith(p)\<close>, \<open>s.endsWith(p)\<close>, \<open>s.substring(n)\<close> for \<open>n\<close> a literal.\<close>

definition startsWith :: "jsstring \<Rightarrow> jsstring \<Rightarrow> bool" where
  "startsWith s p = (take (length p) s = p)"

definition endsWith :: "jsstring \<Rightarrow> jsstring \<Rightarrow> bool" where
  "endsWith s p = (length p \<le> length s \<and> drop (length s - length p) s = p)"

definition substring :: "jsstring \<Rightarrow> nat \<Rightarrow> jsstring" where
  "substring s n = drop n s"

text \<open>
  \<open>s.split(sep)\<close> for a one-character separator: the pieces between the separators, in
  order, empty pieces kept; a string without the separator is its own single piece, and
  so is the empty string.
\<close>

fun split :: "jsstring \<Rightarrow> jschar \<Rightarrow> jsstring list" where
  "split [] sep = [[]]"
| "split (x # xs) sep =
     (let ps = split xs sep
      in if x = sep then [] # ps else (x # hd ps) # tl ps)"

text \<open>
  \<open>s.split(sep, limit)\<close> splits the whole string and keeps the first \<open>limit\<close> pieces:
  what follows the last kept piece is dropped, not appended to it.
\<close>

definition split_limit :: "jsstring \<Rightarrow> jschar \<Rightarrow> nat \<Rightarrow> jsstring list" where
  "split_limit s sep limit = take limit (split s sep)"

text \<open>
  \<open>s.trim()\<close> removes white space and line terminators from both ends
  (ECMAScript's WhiteSpace and LineTerminator code points).
\<close>

definition isWhiteSpace :: "jschar \<Rightarrow> bool" where
  "isWhiteSpace c =
     (c = 0x09 \<or> c = 0x0A \<or> c = 0x0B \<or> c = 0x0C \<or> c = 0x0D \<or> c = 0x20 \<or> c = 0xA0
      \<or> c = 0x1680 \<or> (0x2000 \<le> c \<and> c \<le> 0x200A) \<or> c = 0x2028 \<or> c = 0x2029
      \<or> c = 0x202F \<or> c = 0x205F \<or> c = 0x3000 \<or> c = 0xFEFF)"

definition trim :: "jsstring \<Rightarrow> jsstring" where
  "trim s = rev (dropWhile isWhiteSpace (rev (dropWhile isWhiteSpace s)))"

text \<open>Template-literal conversion of a non-negative integer: its decimal digits.\<close>

fun showNat :: "nat \<Rightarrow> jsstring" where
  "showNat n =
     (if n < 10 then [word_of_nat (48 + n)]
      else showNat (n div 10) @ [word_of_nat (48 + n mod 10)])"

declare showNat.simps [simp del]

text \<open>An \<open>Error\<close> object, identified by its message.\<close>

datatype js_error = Error (error_message: jsstring)

section \<open>Configuration (config.ts)\<close>

definition CL_OWNER :: jsstring where
  "CL_OWNER = js ''you@gmail.com''"

definition GERRIT_SERVER_URL :: jsstring where
  "GERRIT_SERVER_URL = js ''https://fuchsia-review.googlesource.com''"

definition OUTPUT_FILENAME :: jsstring where
  "OUTPUT_FILENAME = js ''fuchsia_commit_messages.md''"

definition DAYS_TO_LOOK_BACK :: nat where
  "DAYS_TO_LOOK_BACK = 180"

definition API_FETCH_LIMIT :: nat where
  "API_FETCH_LIMIT = 500"

section \<open>Credential loader (getGerritCredentials)\<close>

text \<open>
  The returned object \<open>{ username, httpPassword }\<close>.
\<close>

record credentials =
  username :: jsstring
  httpPassword :: jsstring

text \<open>
  The example record printed in the error messages:
  \<open>${targetHost}\tTRUE\t/\tTRUE\t<timestamp>\to\t<username>=<password>\<close>.
\<close>

definition exampleLine :: "jsstring \<Rightarrow> jsstring" where
  "exampleLine targetHost =
     targetHost @ [TAB] @ js ''TRUE'' @ [TAB] @ js ''/'' @ [TAB] @ js ''TRUE'' @ [TAB]
       @ js ''<timestamp>'' @ [TAB] @ js ''o'' @ [TAB] @ js ''<username>=<password>''"

definition invalidUrlMessage :: "jsstring \<Rightarrow> jsstring" where
  "invalidUrlMessage gerritServerUrl =
     js ''Invalid GERRIT_SERVER_URL format: '' @ gerritServerUrl
       @ js ''. Cannot parse hostname.''"

definition notFoundFileMessage :: "jsstring \<Rightarrow> jsstring \<Rightarrow> jsstring" where
  "notFoundFileMessage gitcookiesPath targetHost =
     js ''Error: .gitcookies file not found at '' @ gitcookiesPath @ js ''.'' @ [NL]
       @ js ''Please ensure it exists and is configured for your Gerrit server.'' @ [NL]
       @ js ''Example line for '' @ targetHost @ js '':'' @ [NL]
       @ exampleLine targetHost"

definition noCredentialsMessage :: "jsstring \<Rightarrow> jsstring \<Rightarrow> jsstring \<Rightarrow> jsstring" where
  "noCredentialsMessage gitcookiesPath gerritServerUrl targetHost =
     js ''Credentials for '' @ targetHost @ js '' (from '' @ gerritServerUrl
       @ js '') not found in '' @ gitcookiesPath
       @ js '' with cookie name '' @ [APOSTROPHE] @ js ''o'' @ [APOSTROPHE] @ js ''.''
       @ [NL]
       @ js ''Ensure a line exists like: '' @ exampleLine targetHost"

text \<open>
  The host test of the loop body:
  \<open>(d.startsWith('.') && (host.endsWith(d) || host === d.substring(1)))
     || (!d.startsWith('.') && host === d)\<close>.
\<close>

definition hostMatches :: "jsstring \<Rightarrow> jsstring \<Rightarrow> bool" where
  "hostMatches targetHost domainInCookie =
     ((startsWith domainInCookie [DOT]
         \<and> (endsWith targetHost domainInCookie \<or> targetHost = substring domainInCookie 1))
      \<or> (\<not> startsWith domainInCookie [DOT] \<and> targetHost = domainInCookie))"

text \<open>
  \<open>const [username, password] = cookieValue.split('=', 2); if (username && password)\<close>:
  a missing second piece is \<open>undefined\<close>, and \<open>undefined\<close> and the empty string are
  both falsy.
\<close>

definition splitCookieValue :: "jsstring \<Rightarrow> credentials option" where
  "splitCookieValue cookieValue =
     (case split_limit cookieValue EQUALS 2 of
        [u, p] \<Rightarrow> if u \<noteq> [] \<and> p \<noteq> []
                  then Some \<lparr>username = u, httpPassword = p\<rparr> else None
      | _ \<Rightarrow> None)"

text \<open>
  One pass of the body of \<open>for (const line of lines)\<close>: \<open>Some\<close> is the \<open>return\<close>,
  \<open>None\<close> is falling through to the next line (by \<open>continue\<close> or by reaching the end
  of the body).
\<close>

definition processLine :: "jsstring \<Rightarrow> jsstring \<Rightarrow> credentials option" where
  "processLine targetHost line =
     (if startsWith line [HASH] \<or> trim line = [] then None
      else let parts = split line TAB in
        if length parts \<noteq> 7 then None
        else let domainInCookie = parts ! 0;
                 cookieName = parts ! 5;
                 cookieValue = parts ! 6
             in if hostMatches targetHost domainInCookie \<and> cookieName = js ''o''
                then splitCookieValue cookieValue
                else None)"

fun scanLines :: "jsstring \<Rightarrow> jsstring list \<Rightarrow> credentials option" where
  "scanLines targetHost [] = None"
| "scanLines targetHost (line # lines) =
     (case processLine targetHost line of
        Some c \<Rightarrow> Some c
      | None \<Rightarrow> scanLines targetHost lines)"

text \<open>
  What the function reads from outside the program is a parameter:
  \<^item> \<open>hostname\<close> is \<open>new URL(u).hostname\<close>, \<open>None\<close> when the constructor throws;
  \<^item> \<open>gitcookiesPath\<close> is \<open>path.join(os.homedir(), '.gitcookies')\<close>;
  \<^item> \<open>file\<close> is the content of that file as \<open>readFileSync\<close> decodes it, \<open>None\<close> when
    \<open>existsSync\<close> is false.
  A thrown \<open>Error\<close> is \<open>Inl\<close>.
\<close>

definition getGerritCredentials ::
  "(jsstring \<Rightarrow> jsstring option) \<Rightarrow> jsstring \<Rightarrow> jsstring option \<Rightarrow> jsstring
     \<Rightarrow> js_error + credentials" where
  "getGerritCredentials hostname gitcookiesPath file gerritServerUrl =
     (case hostname gerritServerUrl of
        None \<Rightarrow> Inl (Error (invalidUrlMessage gerritServerUrl))
      | Some targetHost \<Rightarrow>
          (case file of
             None \<Rightarrow> Inl (Error (notFoundFileMessage gitcookiesPath targetHost))
           | Some content \<Rightarrow>
               (case scanLines targetHost (split content NL) of
                  Some c \<Rightarrow> Inr c
                | None \<Rightarrow>
                    Inl (Error
                      (noCredentialsMessage gitcookiesPath gerritServerUrl targetHost)))))"

section \<open>Change fetcher (gerritApi.ts)\<close>

text \<open>
  The interfaces \<open>CommitInfo\<close>, \<open>RevisionInfo\<close> and \<open>ChangeInfo\<close>. An optional
  field is an \<open>option\<close>; the \<open>revisions\<close> object is a map from SHA-1 to revision.
  Some field names are changed because records share one name space with each other and
  with the library: \<open>CommitInfo.commit\<close> is \<open>commit_sha\<close>, \<open>CommitInfo.subject\<close> is
  \<open>commit_subject\<close>, \<open>ChangeInfo.id\<close> is \<open>id_chg\<close>, and the \<open>status\<close> of a response
  is \<open>http_status\<close>.
\<close>

record CommitInfo =
  commit_sha :: jsstring
  commit_subject :: jsstring
  message :: jsstring

record RevisionInfo =
  commit :: "CommitInfo option"

record ChangeInfo =
  id_chg :: jsstring
  project :: jsstring
  branch :: jsstring
  change_id :: jsstring
  subject :: jsstring
  status :: jsstring
  submitted :: jsstring
  revisions :: "(jsstring \<rightharpoonup> RevisionInfo) option"
  current_revision :: "jsstring option"

text \<open>
  What \<open>await fetch(url, ...)\<close> gives: a rejection (the network failed), or a response
  with its \<open>ok\<close>, \<open>status\<close>, \<open>statusText\<close> and the text of its body (\<open>response.text()\<close>
  is taken to deliver it).
\<close>

record http_response =
  ok :: bool
  http_status :: nat
  statusText :: jsstring
  body :: jsstring

datatype fetch_reply = Rejected js_error | Response http_response

text \<open>The request of one iteration: the URL and the \<open>Authorization\<close> header.\<close>

record http_request =
  url :: jsstring
  authorization :: jsstring

text \<open>
  The header \<open>Basic \<close> followed by the base64 encoding of \<open>gerritUsername:gerritHttpPassword\<close>;
  the encoder (\<open>Buffer.from(...).toString('base64')\<close>) is Node's and is a parameter.
\<close>

definition authHeader ::
  "(jsstring \<Rightarrow> jsstring) \<Rightarrow> jsstring \<Rightarrow> jsstring \<Rightarrow> jsstring" where
  "authHeader base64 gerritUsername gerritHttpPassword =
     js ''Basic '' @ base64 (gerritUsername @ js '':'' @ gerritHttpPassword)"

definition requestUrl :: "jsstring \<Rightarrow> jsstring \<Rightarrow> nat \<Rightarrow> jsstring" where
  "requestUrl owner afterDate start =
     GERRIT_SERVER_URL @ js ''/a/changes/?q=status:merged+after:'' @ afterDate
       @ js ''+owner:'' @ owner @ js ''&o=CURRENT_COMMIT&o=CURRENT_REVISION&S=''
       @ showNat start @ js ''&n='' @ showNat API_FETCH_LIMIT"

text \<open>
  \<open>rawText.startsWith(")]}'\n") ? rawText.substring(4) : rawText\<close>
\<close>

definition xssiPrefix :: jsstring where
  "xssiPrefix = js '')]}'' @ [APOSTROPHE] @ [NL]"

definition jsonText :: "jsstring \<Rightarrow> jsstring" where
  "jsonText rawText = (if startsWith rawText xssiPrefix then substring rawText 4 else rawText)"

definition apiErrorMessage :: "http_response \<Rightarrow> jsstring" where
  "apiErrorMessage response =
     js ''Gerrit API error: '' @ showNat (http_status response) @ js '' - ''
       @ statusText response @ [NL] @ js ''Response body: '' @ body response"

text \<open>
  The first half of the \<open>try\<close> block: from the reply to the decoded page, or to the
  error thrown. \<open>parse\<close> is \<open>JSON.parse\<close> at the declared type \<open>ChangeInfo[]\<close>, \<open>Inl\<close>
  when it throws.
\<close>

definition decodeReply ::
  "(jsstring \<Rightarrow> js_error + ChangeInfo list) \<Rightarrow> fetch_reply
     \<Rightarrow> js_error + ChangeInfo list" where
  "decodeReply parse reply =
     (case reply of
        Rejected e \<Rightarrow> Inl e
      | Response response \<Rightarrow>
          if \<not> ok response then Inl (Error (apiErrorMessage response))
          else parse (jsonText (body response)))"

text \<open>The three variables of the loop.\<close>

record loop_state =
  allChanges :: "ChangeInfo list"
  start :: nat
  hasMore :: bool

text \<open>The second half of the \<open>try\<close> block: the updates after a page was decoded.\<close>

definition afterPage :: "loop_state \<Rightarrow> ChangeInfo list \<Rightarrow> loop_state" where
  "afterPage st changes =
     (let st1 = (if length changes > 0
                 then st\<lparr>allChanges := allChanges st @ changes,
                         start := start st + length changes\<rparr>
                 else st);
          st2 = st1\<lparr>hasMore := (length changes = API_FETCH_LIMIT)\<rparr>
      in if length changes = 0 \<and> start st2 = 0 then st2\<lparr>hasMore := False\<rparr> else st2)"

text \<open>
  How a call ends: it returns the accumulated changes, it throws, or it is still awaiting
  a reply that never comes.
\<close>

datatype fetch_result = Returned "ChangeInfo list" | Threw js_error | Awaiting

text \<open>
  The \<open>while (hasMore)\<close> loop. The replies of the server are given in the order in which
  they arrive, one per request; the loop consumes one per iteration. Its value is the
  list of states in which an iteration began (one request was issued from each) and the
  way the call ended. The \<open>catch\<close> block logs and rethrows, so an error ends the call.
\<close>

fun fetchLoop ::
  "(jsstring \<Rightarrow> js_error + ChangeInfo list) \<Rightarrow> fetch_reply list \<Rightarrow> loop_state
     \<Rightarrow> loop_state list \<times> fetch_result" where
  "fetchLoop parse [] st =
     (if hasMore st then ([st], Awaiting) else ([], Returned (allChanges st)))"
| "fetchLoop parse (reply # replies) st =
     (if hasMore st then
        (case decodeReply parse reply of
           Inl e \<Rightarrow> ([st], Threw e)
         | Inr changes \<Rightarrow>
             (case fetchLoop parse replies (afterPage st changes) of
                (iterations, result) \<Rightarrow> (st # iterations, result)))
      else ([], Returned (allChanges st)))"

record fetch_outcome =
  iterations :: "loop_state list"
  requests :: "http_request list"
  result :: fetch_result

definition fetchMergedChanges ::
  "(jsstring \<Rightarrow> js_error + ChangeInfo list) \<Rightarrow> (jsstring \<Rightarrow> jsstring) \<Rightarrow> fetch_reply list
     \<Rightarrow> jsstring \<Rightarrow> jsstring \<Rightarrow> jsstring \<Rightarrow> jsstring \<Rightarrow> fetch_outcome" where
  "fetchMergedChanges parse base64 replies owner afterDate gerritUsername gerritHttpPassword =
     (case fetchLoop parse replies \<lparr>allChanges = [], start = 0, hasMore = True\<rparr> of
        (its, res) \<Rightarrow>
          \<lparr>iterations = its,
           requests = map (\<lambda>st. \<lparr>url = requestUrl owner afterDate (start st),
                                   authorization =
                                     authHeader base64 gerritUsername gerritHttpPassword\<rparr>) its,
           result = res\<rparr>)"

section \<open>Report renderer and orchestrator (index.ts)\<close>

text \<open>
  \<open>mergedChanges.sort(compareFn)\<close>. The sort is the platform's; ECMAScript (from ES2019,
  and the project compiles for ES2020) specifies it as stable and reads a comparator
  result \<open>NaN\<close> as \<open>+0\<close>. The model is a stable insertion sort: an element moves behind
  exactly the elements that the comparator puts strictly before it. A comparator result
  is an \<open>int option\<close>, \<open>None\<close> for \<open>NaN\<close>; only its sign matters to the sort. With a
  comparator that is not a consistent order (one that yields \<open>NaN\<close> for some pairs,
  as this one does when a \<open>submitted\<close> string is not a date) ECMAScript leaves the order
  to the implementation; the model is not meant to agree with the platform there, and
  the properties of the sorted order below are stated for changes whose timestamps all
  parse.
\<close>

definition sortCompare :: "('a \<Rightarrow> 'a \<Rightarrow> int option) \<Rightarrow> 'a \<Rightarrow> 'a \<Rightarrow> int" where
  "sortCompare compareFn x y = (case compareFn x y of None \<Rightarrow> 0 | Some v \<Rightarrow> v)"

fun insertSorted :: "('a \<Rightarrow> 'a \<Rightarrow> int option) \<Rightarrow> 'a \<Rightarrow> 'a list \<Rightarrow> 'a list" where
  "insertSorted compareFn x [] = [x]"
| "insertSorted compareFn x (y # ys) =
     (if sortCompare compareFn x y \<le> 0 then x # y # ys
      else y # insertSorted compareFn x ys)"

fun sortJS :: "('a \<Rightarrow> 'a \<Rightarrow> int option) \<Rightarrow> 'a list \<Rightarrow> 'a list" where
  "sortJS compareFn [] = []"
| "sortJS compareFn (x # xs) = insertSorted compareFn x (sortJS compareFn xs)"

text \<open>
  The comparator \<open>(a, b) => new Date(b.submitted).getTime() - new Date(a.submitted).getTime()\<close>.
  \<open>getTime\<close> stands for \<open>new Date(s).getTime()\<close>: the milliseconds since the epoch, or
  \<open>None\<close> for the \<open>NaN\<close> of a string that is not a date. A difference with a \<open>NaN\<close>
  operand is \<open>NaN\<close>; the floating-point difference of two time values has the sign of
  their integer difference.
\<close>

definition compareSubmitted ::
  "(jsstring \<Rightarrow> int option) \<Rightarrow> ChangeInfo \<Rightarrow> ChangeInfo \<Rightarrow> int option" where
  "compareSubmitted getTime a b =
     (case (getTime (submitted b), getTime (submitted a)) of
        (Some tb, Some ta) \<Rightarrow> Some (tb - ta)
      | _ \<Rightarrow> None)"

text \<open>
  \<open>currentRevisionSha ? change.revisions?.[currentRevisionSha] : undefined\<close>, then
  \<open>revision?.commit\<close>: an absent or empty \<open>current_revision\<close> is falsy.
\<close>

definition lookupCommit :: "ChangeInfo \<Rightarrow> CommitInfo option" where
  "lookupCommit change =
     (let revision =
        (case current_revision change of
           None \<Rightarrow> None
         | Some currentRevisionSha \<Rightarrow>
             if currentRevisionSha = [] then None
             else (case revisions change of
                     None \<Rightarrow> None
                   | Some revs \<Rightarrow> revs currentRevisionSha))
      in case revision of None \<Rightarrow> None | Some r \<Rightarrow> commit r)"

text \<open>
  The two template literals of the loop body, each written out as the source has it.
  \<open>toLocaleString\<close> stands for \<open>new Date(s).toLocaleString()\<close>, which depends on the
  locale and time zone of the process.
\<close>

definition commitSection ::
  "(jsstring \<Rightarrow> jsstring) \<Rightarrow> ChangeInfo \<Rightarrow> CommitInfo \<Rightarrow> jsstring" where
  "commitSection toLocaleString change cm =
     js ''---'' @ [NL]
     @ js ''### '' @ subject change @ [NL]
     @ js ''* **Project:** '' @ [BACKTICK] @ project change @ [BACKTICK] @ [NL]
     @ js ''* **Branch:** '' @ [BACKTICK] @ branch change @ [BACKTICK] @ [NL]
     @ js ''* **Change-Id:** '' @ [BACKTICK] @ change_id change @ [BACKTICK] @ [NL]
     @ js ''* **Submitted:** '' @ [BACKTICK] @ toLocaleString (submitted change)
       @ [BACKTICK] @ [NL]
     @ js ''* **Gerrit Link:** <'' @ GERRIT_SERVER_URL @ js ''/c/'' @ project change
       @ js ''/+/'' @ change_id change @ js ''>'' @ [NL]
     @ [BACKTICK, BACKTICK, BACKTICK] @ [NL]
     @ message cm @ [NL]
     @ [BACKTICK, BACKTICK, BACKTICK] @ [NL]
     @ [NL]"

definition placeholderSection :: "(jsstring \<Rightarrow> jsstring) \<Rightarrow> ChangeInfo \<Rightarrow> jsstring" where
  "placeholderSection toLocaleString change =
     js ''---'' @ [NL]
     @ js ''### '' @ subject change @ [NL]
     @ js ''* **Project:** '' @ [BACKTICK] @ project change @ [BACKTICK] @ [NL]
     @ js ''* **Branch:** '' @ [BACKTICK] @ branch change @ [BACKTICK] @ [NL]
     @ js ''* **Change-Id:** '' @ [BACKTICK] @ change_id change @ [BACKTICK] @ [NL]
     @ js ''* **Submitted:** '' @ [BACKTICK] @ toLocaleString (submitted change)
       @ [BACKTICK] @ [NL]
     @ js ''* **Gerrit Link:** <'' @ GERRIT_SERVER_URL @ js ''/c/'' @ project change
       @ js ''/+/'' @ change_id change @ js ''>'' @ [NL]
     @ js ''_Commit message could not be retrieved._'' @ [NL]
     @ [NL]"

definition warningLine :: "ChangeInfo \<Rightarrow> jsstring" where
  "warningLine change =
     js ''Warning: Could not retrieve full commit message for Change-Id: ''
     @ change_id change @ js '' (Subject: '' @ [DQUOTE] @ subject change @ [DQUOTE]
     @ js '')''"

text \<open>
  The \<open>for (const change of mergedChanges)\<close> loop, with the two things it builds: the
  Markdown text and the lines written by \<open>console.warn\<close>.
\<close>

fun renderLoop ::
  "(jsstring \<Rightarrow> jsstring) \<Rightarrow> ChangeInfo list \<Rightarrow> jsstring \<times> jsstring list
     \<Rightarrow> jsstring \<times> jsstring list" where
  "renderLoop toLocaleString [] acc = acc"
| "renderLoop toLocaleString (change # rest) (markdownContent, warnings) =
     (case lookupCommit change of
        Some cm \<Rightarrow>
          renderLoop toLocaleString rest
            (markdownContent @ commitSection toLocaleString change cm, warnings)
      | None \<Rightarrow>
          renderLoop toLocaleString rest
            (markdownContent @ placeholderSection toLocaleString change,
             warnings @ [warningLine change]))"

text \<open>
  The three header lines. \<open>generatedOn\<close> stands for
  \<open>format(new Date(), 'yyyy-MM-dd HH:mm:ss')\<close>: the clock of the run, formatted.
\<close>

definition documentHeader :: "jsstring \<Rightarrow> jsstring" where
  "documentHeader generatedOn =
     js ''# Merged Gerrit CL Commit Messages (Last '' @ showNat DAYS_TO_LOOK_BACK
       @ js '' Days)'' @ [NL, NL]
     @ js ''*Generated on: '' @ generatedOn @ js ''*'' @ [NL, NL]
     @ js ''This document lists the commit messages (CL summary descriptions) from merged Gerrit Code Reviews submitted in the last ''
       @ showNat DAYS_TO_LOOK_BACK @ js '' days.'' @ [NL, NL]"

text \<open>
  The document-building step of \<open>main\<close>, from the header to the end of the loop: the
  Markdown text and the warnings.
\<close>

definition buildMarkdown ::
  "jsstring \<Rightarrow> (jsstring \<Rightarrow> int option) \<Rightarrow> (jsstring \<Rightarrow> jsstring) \<Rightarrow> ChangeInfo list
     \<Rightarrow> jsstring \<times> jsstring list" where
  "buildMarkdown generatedOn getTime toLocaleString mergedChanges =
     (if length mergedChanges = 0
      then (documentHeader generatedOn
              @ js ''No merged changes found for the specified period.'' @ [NL], [])
      else renderLoop toLocaleString (sortJS (compareSubmitted getTime) mergedChanges)
             (documentHeader generatedOn, []))"

text \<open>
  Everything \<open>main\<close> reads from outside the program: the URL parser, the secrets file,
  the JSON parser and base64 encoder, the two readings of the clock (\<open>afterDate\<close> is
  \<open>format(subDays(new Date(), DAYS_TO_LOOK_BACK), 'yyyy-MM-dd')\<close>), the date functions
  and the replies of the server.
\<close>

record environment =
  urlHostname :: "jsstring \<Rightarrow> jsstring option"
  homeGitcookiesPath :: jsstring
  gitcookiesFile :: "jsstring option"
  jsonParse :: "jsstring \<Rightarrow> js_error + ChangeInfo list"
  toBase64 :: "jsstring \<Rightarrow> jsstring"
  afterDateNow :: jsstring
  generatedOnNow :: jsstring
  dateGetTime :: "jsstring \<Rightarrow> int option"
  dateToLocaleString :: "jsstring \<Rightarrow> jsstring"
  serverReplies :: "fetch_reply list"

text \<open>
  What a run does that can be seen from outside: the requests it sends, the file it
  writes (name and content), the warnings, and the exit code (\<open>None\<close> while the run is
  still awaiting a reply). \<open>console.log\<close> and \<open>console.error\<close> lines are not modelled;
  \<open>writeFileSync\<close> is taken to succeed.
\<close>

record run_outcome =
  sent :: "http_request list"
  written :: "(jsstring \<times> jsstring) option"
  warned :: "jsstring list"
  exitCode :: "nat option"

definition main :: "environment \<Rightarrow> run_outcome" where
  "main env =
     (case getGerritCredentials (urlHostname env) (homeGitcookiesPath env) (gitcookiesFile env)
             GERRIT_SERVER_URL of
        Inl e \<Rightarrow> \<lparr>sent = [], written = None, warned = [], exitCode = Some 1\<rparr>
      | Inr credentials \<Rightarrow>
          (let fetched = fetchMergedChanges (jsonParse env) (toBase64 env) (serverReplies env) CL_OWNER
                           (afterDateNow env) (username credentials) (httpPassword credentials)
           in case result fetched of
                Awaiting \<Rightarrow>
                  \<lparr>sent = requests fetched, written = None, warned = [], exitCode = None\<rparr>
              | Threw e \<Rightarrow>
                  \<lparr>sent = requests fetched, written = None, warned = [], exitCode = Some 1\<rparr>
              | Returned mergedChanges \<Rightarrow>
                  (case buildMarkdown (generatedOnNow env) (dateGetTime env) (dateToLocaleString env)
                          mergedChanges of
                     (markdownContent, warnings) \<Rightarrow>
                       \<lparr>sent = requests fetched,
                        written = Some (OUTPUT_FILENAME, markdownContent),
                        warned = warnings, exitCode = Some 0\<rparr>)))"

section \<open>Notions of the specification\<close>

subsection \<open>Credential loader\<close>

text \<open>
  The matching rule as the specification words it: a pattern without a leading dot matches
  the host when it equals the host; a pattern with a leading dot matches when the host
  equals the pattern without its dot, or the host ends with the dotted pattern.
\<close>

definition hasLeadingDot :: "jsstring \<Rightarrow> bool" where
  "hasLeadingDot pattern = (pattern \<noteq> [] \<and> hd pattern = DOT)"

definition domainPatternMatches :: "jsstring \<Rightarrow> jsstring \<Rightarrow> bool" where
  "domainPatternMatches pattern host =
     (if hasLeadingDot pattern then host = tl pattern \<or> suffix pattern host
      else host = pattern)"

definition isComment :: "jsstring \<Rightarrow> bool" where
  "isComment line = (line \<noteq> [] \<and> hd line = HASH)"

definition isBlank :: "jsstring \<Rightarrow> bool" where
  "isBlank line = list_all isWhiteSpace line"

definition tabFields :: "jsstring \<Rightarrow> jsstring list" where
  "tabFields line = split line TAB"

text \<open>
  The parts of a record, and the records the loop can select: a record for the host whose
  cookie name is \<open>o\<close> and whose value, cut at every \<open>=\<close>, has a non-empty first and a
  non-empty second piece.
\<close>

definition domainPattern :: "jsstring \<Rightarrow> jsstring" where
  "domainPattern line = tabFields line ! 0"

definition cookieName :: "jsstring \<Rightarrow> jsstring" where
  "cookieName line = tabFields line ! 5"

definition cookieValue :: "jsstring \<Rightarrow> jsstring" where
  "cookieValue line = tabFields line ! 6"

definition isRecord :: "jsstring \<Rightarrow> bool" where
  "isRecord line = (\<not> isComment line \<and> \<not> isBlank line \<and> length (tabFields line) = 7)"

definition usableValue :: "jsstring \<Rightarrow> bool" where
  "usableValue v =
     (let pieces = split v EQUALS
      in 2 \<le> length pieces \<and> pieces ! 0 \<noteq> [] \<and> pieces ! 1 \<noteq> [])"

definition selectable :: "jsstring \<Rightarrow> jsstring \<Rightarrow> bool" where
  "selectable host line =
     (isRecord line \<and> domainPatternMatches (domainPattern line) host
      \<and> cookieName line = js ''o'' \<and> usableValue (cookieValue line))"


subsection \<open>Change fetcher\<close>

text \<open>The anti-sniffing marker of the specification: four bytes, followed by a newline.\<close>

definition xssiMarker :: jsstring where
  "xssiMarker = js '')]}'' @ [APOSTROPHE]"

text \<open>The state in which the loop starts.\<close>

definition initialState :: loop_state where
  "initialState = \<lparr>allChanges = [], start = 0, hasMore = True\<rparr>"

text \<open>The states in which the iterations over a run of pages begin.\<close>

fun statesAlong :: "loop_state \<Rightarrow> ChangeInfo list list \<Rightarrow> loop_state list" where
  "statesAlong st [] = []"
| "statesAlong st (p # ps) = st # statesAlong (afterPage st p) ps"

subsection \<open>Report renderer\<close>

text \<open>
  The section of one change and the warnings it causes, as functions of the change; the
  body of the document; and what "non-increasing by submission timestamp" means for two
  changes whose timestamps both parse.
\<close>

definition renderSection :: "(jsstring \<Rightarrow> jsstring) \<Rightarrow> ChangeInfo \<Rightarrow> jsstring" where
  "renderSection toLocaleString change =
     (case lookupCommit change of
        Some cm \<Rightarrow> commitSection toLocaleString change cm
      | None \<Rightarrow> placeholderSection toLocaleString change)"

definition warningsFor :: "ChangeInfo \<Rightarrow> jsstring list" where
  "warningsFor change = (case lookupCommit change of Some cm \<Rightarrow> [] | None \<Rightarrow> [warningLine change])"

definition notOlder :: "(jsstring \<Rightarrow> int option) \<Rightarrow> ChangeInfo \<Rightarrow> ChangeInfo \<Rightarrow> bool" where
  "notOlder getTime a b =
     (case (getTime (submitted a), getTime (submitted b)) of
        (Some ta, Some tb) \<Rightarrow> tb \<le> ta
      | _ \<Rightarrow> False)"

definition hasTimestamp :: "(jsstring \<Rightarrow> int option) \<Rightarrow> ChangeInfo \<Rightarrow> bool" where
  "hasTimestamp getTime change = (getTime (submitted change) \<noteq> None)"

definition documentBody ::
  "(jsstring \<Rightarrow> int option) \<Rightarrow> (jsstring \<Rightarrow> jsstring) \<Rightarrow> ChangeInfo list \<Rightarrow> jsstring" where
  "documentBody getTime toLocaleString mergedChanges =
     (if mergedChanges = []
      then js ''No merged changes found for the specified period.'' @ [NL]
      else concat (map (renderSection toLocaleString)
                    (sortJS (compareSubmitted getTime) mergedChanges)))"





section \<open>Sample data\<close>

text \<open>
  For the loader: record lines, a host, a URL parser that knows the configured server,
  and a secrets file of four lines.
\<close>

definition cookieLine :: "jsstring \<Rightarrow> jsstring \<Rightarrow> jsstring \<Rightarrow> jsstring" where
  "cookieLine domain name val =
     domain @ [TAB] @ js ''TRUE'' @ [TAB] @ js ''/'' @ [TAB] @ js ''TRUE'' @ [TAB]
       @ js ''2147483647'' @ [TAB] @ name @ [TAB] @ val"

definition sampleHost :: jsstring where
  "sampleHost = js ''fuchsia-review.googlesource.com''"

definition sampleHostname :: "jsstring \<Rightarrow> jsstring option" where
  "sampleHostname u = (if u = GERRIT_SERVER_URL then Some sampleHost else None)"

definition samplePath :: jsstring where
  "samplePath = js ''/home/dev/.gitcookies''"

definition sampleCookies :: jsstring where
  "sampleCookies =
     js ''# HTTP cookie file'' @ [NL]
     @ cookieLine (js ''.example.org'') (js ''o'') (js ''other=value'') @ [NL]
     @ cookieLine sampleHost (js ''o'') (js ''=stray'') @ [NL]
     @ cookieLine sampleHost (js ''o'') (js ''git-paul=secret'') @ [NL]"

text \<open>
  For the fetcher: a change, a stand-in for \<open>JSON.parse\<close> that knows three bodies by
  name (an empty page, a page of three changes, a full page), the base64 encoding of the
  sample credential, and two replies.
\<close>

definition sampleChange :: ChangeInfo where
  "sampleChange =
     \<lparr>id_chg = js ''proj~main~I123'', project = js ''proj'', branch = js ''main'',
      change_id = js ''I123'', subject = js ''Fix bug'', status = js ''MERGED'',
      submitted = js ''2024-01-02T10:00:00Z'',
      revisions = Some [js ''abc'' \<mapsto>
        \<lparr>commit = Some \<lparr>commit_sha = js ''abc'', commit_subject = js ''Fix bug'',
                         message = js ''Fix bug'' @ [NL, NL] @ js ''Details.''\<rparr>\<rparr>],
      current_revision = Some (js ''abc'')\<rparr>"

definition sampleParse :: "jsstring \<Rightarrow> js_error + ChangeInfo list" where
  "sampleParse text =
     (let t = dropWhile (\<lambda>c. c = NL) text
      in if t = js ''[]'' then Inr []
         else if t = js ''[few]'' then Inr (replicate 3 sampleChange)
         else if t = js ''[full]'' then Inr (replicate API_FETCH_LIMIT sampleChange)
         else Inl (Error (js ''SyntaxError'')))"

definition sampleBase64 :: "jsstring \<Rightarrow> jsstring" where
  "sampleBase64 s = (if s = js ''git-paul:secret'' then js ''Z2l0LXBhdWw6c2VjcmV0'' else [])"

definition okReply :: "jsstring \<Rightarrow> fetch_reply" where
  "okReply text = Response \<lparr>ok = True, http_status = 200, statusText = js ''OK'', body = text\<rparr>"

definition forbidden :: http_response where
  "forbidden = \<lparr>ok = False, http_status = 403, statusText = js ''Forbidden'',
                 body = js ''Access denied''\<rparr>"

text \<open>
  For the renderer and the run: two more changes (one submitted later, one
  at the same time as the first), a change whose current revision is unknown, the date
  functions on the two timestamps used, and an environment whose server fails on the
  second request.
\<close>

definition laterChange :: ChangeInfo where
  "laterChange = sampleChange\<lparr>change_id := js ''I456'', subject := js ''Add feature'',
                              submitted := js ''2024-03-05T08:30:00Z''\<rparr>"

definition tiedChange :: ChangeInfo where
  "tiedChange = sampleChange\<lparr>change_id := js ''I789'', subject := js ''Update docs'',
                             current_revision := Some (js ''def'')\<rparr>"

definition sampleGetTime :: "jsstring \<Rightarrow> int option" where
  "sampleGetTime s =
     (if s = js ''2024-01-02T10:00:00Z'' then Some 1704189600000
      else if s = js ''2024-03-05T08:30:00Z'' then Some 1709627400000
      else None)"

definition sampleLocale :: "jsstring \<Rightarrow> jsstring" where
  "sampleLocale s =
     (if s = js ''2024-01-02T10:00:00Z'' then js ''1/2/2024, 10:00:00 AM''
      else if s = js ''2024-03-05T08:30:00Z'' then js ''3/5/2024, 8:30:00 AM''
      else js ''Invalid Date'')"


definition sampleEnv :: environment where
  "sampleEnv =
     \<lparr>urlHostname = sampleHostname, homeGitcookiesPath = samplePath,
      gitcookiesFile = Some sampleCookies, jsonParse = sampleParse, toBase64 = sampleBase64,
      afterDateNow = js ''2023-12-04'', generatedOnNow = js ''2024-06-01 12:00:00'',
      dateGetTime = sampleGetTime, dateToLocaleString = sampleLocale,
      serverReplies = [okReply (js ''[full]''), Response forbidden, okReply (js ''[few]'')]\<rparr>"

section \<open>Properties of the credential loader\<close>

lemma split_not_Nil: "split s sep \<noteq> []"
  by (induction s) (simp_all add: Let_def)

lemma startsWith_single: "startsWith s [c] \<longleftrightarrow> s \<noteq> [] \<and> hd s = c"
  by (cases s) (simp_all add: startsWith_def)

lemma endsWith_suffix: "endsWith s p \<longleftrightarrow> suffix p s"
proof
  assume "endsWith s p"
  then have "drop (length s - length p) s = p"
    by (simp add: endsWith_def)
  then show "suffix p s"
    by (metis suffix_drop)
next
  assume "suffix p s"
  then obtain zs where "s = zs @ p"
    by (auto simp: suffix_def)
  then show "endsWith s p"
    by (simp add: endsWith_def)
qed

lemma dropWhile_all_iff: "(\<forall>x\<in>set (dropWhile P s). P x) \<longleftrightarrow> (\<forall>x\<in>set s. P x)"
  by (induction s) auto

lemma trim_empty_iff: "trim s = [] \<longleftrightarrow> list_all isWhiteSpace s"
  by (simp add: trim_def list_all_iff dropWhile_all_iff)

lemma hostMatches_rule: "hostMatches host pattern \<longleftrightarrow> domainPatternMatches pattern host"
  by (auto simp: hostMatches_def domainPatternMatches_def hasLeadingDot_def
      startsWith_single endsWith_suffix substring_def drop_Suc)

lemma split_no_sep: "sep \<notin> set s \<Longrightarrow> split s sep = [s]"
  by (induction s) (auto simp: Let_def)

lemma split_at_first: "sep \<notin> set u \<Longrightarrow> split (u @ sep # t) sep = u # split t sep"
  by (induction u) (auto simp: Let_def)

lemma splitCookieValue_None_iff: "splitCookieValue v = None \<longleftrightarrow> \<not> usableValue v"
proof (cases "split v EQUALS")
  case Nil
  then show ?thesis by (simp add: split_not_Nil)
next
  case (Cons a as)
  then show ?thesis
    by (cases as) (simp_all add: splitCookieValue_def split_limit_def usableValue_def)
qed

lemma processLine_None_iff: "processLine host line = None \<longleftrightarrow> \<not> selectable host line"
  by (auto simp: processLine_def Let_def selectable_def isRecord_def tabFields_def isComment_def
      isBlank_def startsWith_single trim_empty_iff hostMatches_rule domainPattern_def
      cookieName_def cookieValue_def splitCookieValue_None_iff)

lemma hd_split: "hd (split s sep) = takeWhile (\<lambda>x. x \<noteq> sep) s"
  by (induction s) (auto simp: Let_def)

lemma processLine_value:
  assumes "selectable host line" and "cookieValue line = u @ EQUALS # t" and "EQUALS \<notin> set u"
  shows "processLine host line =
           Some \<lparr>username = u, httpPassword = takeWhile (\<lambda>x. x \<noteq> EQUALS) t\<rparr>"
proof -
  obtain p ps where sp: "split t EQUALS = p # ps"
    by (cases "split t EQUALS") (simp_all add: split_not_Nil)
  have p: "p = takeWhile (\<lambda>x. x \<noteq> EQUALS) t"
    using hd_split [of t EQUALS] sp by simp
  have pieces: "split (cookieValue line) EQUALS = u # p # ps"
    using assms(2,3) sp by (simp add: split_at_first)
  have "usableValue (cookieValue line)"
    using assms(1) by (simp add: selectable_def)
  then have ne: "u \<noteq> []" "p \<noteq> []"
    using pieces by (simp_all add: usableValue_def)
  have val: "splitCookieValue (cookieValue line) = Some \<lparr>username = u, httpPassword = p\<rparr>"
    using pieces ne by (simp add: splitCookieValue_def split_limit_def)
  have "processLine host line = splitCookieValue (cookieValue line)"
    using assms(1)
    by (auto simp: processLine_def Let_def selectable_def isRecord_def tabFields_def isComment_def
      isBlank_def startsWith_single trim_empty_iff hostMatches_rule domainPattern_def
      cookieName_def cookieValue_def)
  then show ?thesis using val p by simp
qed



lemma scanLines_first:
  assumes "\<forall>l\<in>set pre. \<not> selectable host l"
  shows "scanLines host (pre @ line # post) =
           (case processLine host line of Some c \<Rightarrow> Some c | None \<Rightarrow> scanLines host post)"
  using assms
proof (induction pre)
  case Nil
  show ?case by simp
next
  case (Cons l pre)
  then have "processLine host l = None"
    by (simp add: processLine_None_iff)
  with Cons show ?case by simp
qed




lemma scanLines_Some_line:
  "scanLines host lines = Some c \<Longrightarrow> \<exists>line\<in>set lines. processLine host line = Some c"
  by (induction lines) (auto split: option.splits)

text \<open>
  C2. A line of the secrets file yields a credential only if it is not a comment, is not
  blank, has exactly seven tab-separated fields, and its first field (the domain
  pattern) matches the target host by the rule of the specification; and the credential
  that the loader returns is yielded by a line of the file.
\<close>

theorem line_yields_only_if:
  "(processLine targetHost line = Some c \<longrightarrow>
      \<not> isComment line \<and> \<not> isBlank line \<and> length (tabFields line) = 7
      \<and> domainPatternMatches (domainPattern line) targetHost)
   \<and> (getGerritCredentials resolve path (Some content) gerritServerUrl = Inr c' \<longrightarrow>
      (\<exists>host l. resolve gerritServerUrl = Some host \<and> l \<in> set (split content NL)
         \<and> processLine host l = Some c'))"
proof (rule conjI)
  show "processLine targetHost line = Some c \<longrightarrow>
      \<not> isComment line \<and> \<not> isBlank line \<and> length (tabFields line) = 7
      \<and> domainPatternMatches (domainPattern line) targetHost"
    by (simp add: processLine_def Let_def tabFields_def domainPattern_def isComment_def
        isBlank_def startsWith_single trim_empty_iff hostMatches_rule split: if_splits)
next
  show "getGerritCredentials resolve path (Some content) gerritServerUrl = Inr c' \<longrightarrow>
      (\<exists>host l. resolve gerritServerUrl = Some host \<and> l \<in> set (split content NL)
         \<and> processLine host l = Some c')"
  proof
    assume r: "getGerritCredentials resolve path (Some content) gerritServerUrl = Inr c'"
    then obtain host where h: "resolve gerritServerUrl = Some host"
      by (cases "resolve gerritServerUrl") (simp_all add: getGerritCredentials_def)
    with r have "scanLines host (split content NL) = Some c'"
      by (simp add: getGerritCredentials_def split: option.splits)
    then show "\<exists>host l. resolve gerritServerUrl = Some host \<and> l \<in> set (split content NL)
         \<and> processLine host l = Some c'"
      using h scanLines_Some_line by blast
  qed
qed

theorem line_yields_only_if_witness:
  "processLine sampleHost
      (cookieLine (js ''.googlesource.com'') (js ''o'') (js ''git-paul=secret'')) =
     Some \<lparr>username = js ''git-paul'', httpPassword = js ''secret''\<rparr>
   \<and> \<not> isComment (cookieLine (js ''.googlesource.com'') (js ''o'') (js ''git-paul=secret''))
   \<and> \<not> isBlank (cookieLine (js ''.googlesource.com'') (js ''o'') (js ''git-paul=secret''))
   \<and> length (tabFields
         (cookieLine (js ''.googlesource.com'') (js ''o'') (js ''git-paul=secret''))) = 7
   \<and> domainPatternMatches
        (domainPattern (cookieLine (js ''.googlesource.com'') (js ''o'') (js ''git-paul=secret'')))
        sampleHost"
proof -
  have h: "processLine sampleHost
      (cookieLine (js ''.googlesource.com'') (js ''o'') (js ''git-paul=secret'')) =
     Some \<lparr>username = js ''git-paul'', httpPassword = js ''secret''\<rparr>"
    by code_simp
  from line_yields_only_if [of sampleHost
      "cookieLine (js ''.googlesource.com'') (js ''o'') (js ''git-paul=secret'')"
      "\<lparr>username = js ''git-paul'', httpPassword = js ''secret''\<rparr>"] h
  show ?thesis by blast
qed

text \<open>
  C3. The claim is that the value of the selected record is split at its first \<open>=\<close>
  into user name and token, the token being the whole remainder, which may itself
  contain \<open>=\<close>. The code does not do this. \<open>cookieValue.split('=', 2)\<close> cuts the value
  at every \<open>=\<close> and keeps the first two pieces: for the value \<open>git-paul=abc=def\<close> the
  token returned is \<open>abc\<close>, not \<open>abc=def\<close>; and for the value \<open>git-paul==abc\<close> the second
  piece is empty, the record is passed over, and the loader fails although the record is
  the only one for the host.
\<close>

theorem token_cut_at_second_equals:
  "getGerritCredentials sampleHostname samplePath
      (Some (cookieLine sampleHost (js ''o'') (js ''git-paul=abc=def''))) GERRIT_SERVER_URL
     = Inr \<lparr>username = js ''git-paul'', httpPassword = js ''abc''\<rparr>
   \<and> getGerritCredentials sampleHostname samplePath
      (Some (cookieLine sampleHost (js ''o'') (js ''git-paul=abc=def''))) GERRIT_SERVER_URL
     \<noteq> Inr \<lparr>username = js ''git-paul'', httpPassword = js ''abc=def''\<rparr>
   \<and> getGerritCredentials sampleHostname samplePath
      (Some (cookieLine sampleHost (js ''o'') (js ''git-paul==abc''))) GERRIT_SERVER_URL
     = Inl (Error (noCredentialsMessage samplePath GERRIT_SERVER_URL sampleHost))"
  by code_simp

text \<open>
  What the code returns in general: the credential of the first selectable record, its
  user name the part of the value before the first \<open>=\<close>, its token the part between
  the first \<open>=\<close> and the next one (or the end of the value).
\<close>

lemma loader_returns_first_selectable:
  assumes "resolve gerritServerUrl = Some host"
    and "split content NL = pre @ line # post"
    and "\<forall>l\<in>set pre. \<not> selectable host l"
    and "selectable host line"
    and "cookieValue line = u @ EQUALS # t"
    and "EQUALS \<notin> set u"
  shows "getGerritCredentials resolve path (Some content) gerritServerUrl =
           Inr \<lparr>username = u, httpPassword = takeWhile (\<lambda>x. x \<noteq> EQUALS) t\<rparr>"
proof -
  have "scanLines host (split content NL) =
      Some \<lparr>username = u, httpPassword = takeWhile (\<lambda>x. x \<noteq> EQUALS) t\<rparr>"
    using scanLines_first [OF assms(3), of line post] processLine_value [OF assms(4,5,6)]
      assms(2) by simp
  then show ?thesis
    using assms(1) by (simp add: getGerritCredentials_def)
qed




section \<open>Properties of the change fetcher\<close>

lemma xssiMarker_length: "length xssiMarker = 4"
  by (simp add: xssiMarker_def js_def)

lemma xssiPrefix_marker: "xssiPrefix = xssiMarker @ [NL]"
  by (simp add: xssiPrefix_def xssiMarker_def)

lemma startsWith_xssiPrefix: "startsWith s xssiPrefix \<longleftrightarrow> prefix (xssiMarker @ [NL]) s"
  unfolding startsWith_def xssiPrefix_marker
  by (metis append_eq_conv_conj prefix_def)

lemma sampleParse_values:
  "sampleParse (js ''[]'') = Inr []"
  "sampleParse (NL # js ''[]'') = Inr []"
  "sampleParse (js ''[few]'') = Inr (replicate 3 sampleChange)"
  "sampleParse (js ''[full]'') = Inr (replicate API_FETCH_LIMIT sampleChange)"
  by (simp_all add: sampleParse_def js_def NL_def)

lemma jsonText_plain: "jsonText (js ''[]'') = js ''[]''" "jsonText (js ''[few]'') = js ''[few]''"
  "jsonText (js ''[full]'') = js ''[full]''"
  by (simp_all add: jsonText_def startsWith_def xssiPrefix_def js_def APOSTROPHE_def NL_def)

lemma decode_samples:
  "decodeReply sampleParse (okReply (js ''[]'')) = Inr []"
  "decodeReply sampleParse (okReply (js ''[few]'')) = Inr (replicate 3 sampleChange)"
  "decodeReply sampleParse (okReply (js ''[full]'')) = Inr (replicate API_FETCH_LIMIT sampleChange)"
  by (simp_all add: decodeReply_def okReply_def jsonText_plain sampleParse_values)

text \<open>
  C9. A body that begins with the four-byte marker and a newline is parsed without the
  marker (the newline stays, as leading white space of the JSON text); any other body
  is parsed as it is.
\<close>

theorem marker_stripped_before_parsing:
  assumes "ok response"
  shows "length xssiMarker = 4
    \<and> (\<forall>rest. body response = xssiMarker @ NL # rest \<longrightarrow>
          decodeReply parse (Response response) = parse (NL # rest))
    \<and> (\<not> prefix (xssiMarker @ [NL]) (body response) \<longrightarrow>
          decodeReply parse (Response response) = parse (body response))"
  using assms xssiMarker_length
  by (auto simp: decodeReply_def jsonText_def startsWith_xssiPrefix substring_def)

theorem marker_stripped_before_parsing_witness:
  "decodeReply sampleParse (okReply (xssiMarker @ NL # js ''[]'')) = Inr []
   \<and> decodeReply sampleParse (okReply (js ''[]'')) = Inr []"
proof -
  have ok1: "ok \<lparr>ok = True, http_status = 200, statusText = js ''OK'',
                 body = xssiMarker @ NL # js ''[]''\<rparr>"
    by simp
  have ok2: "ok \<lparr>ok = True, http_status = 200, statusText = js ''OK'', body = js ''[]''\<rparr>"
    by simp
  have np: "\<not> prefix (xssiMarker @ [NL]) (js ''[]'')"
    by (simp add: xssiMarker_def js_def)
  have "decodeReply sampleParse (okReply (xssiMarker @ NL # js ''[]'')) = sampleParse (NL # js ''[]'')"
    using marker_stripped_before_parsing [OF ok1, of sampleParse] by (simp add: okReply_def)
  moreover have "decodeReply sampleParse (okReply (js ''[]'')) = sampleParse (js ''[]'')"
    using marker_stripped_before_parsing [OF ok2, of sampleParse] np by (simp add: okReply_def)
  ultimately show ?thesis
    by (simp add: sampleParse_values)
qed

lemma API_FETCH_LIMIT_pos: "0 < API_FETCH_LIMIT"
  by (simp add: API_FETCH_LIMIT_def)

lemma afterPage_fields:
  "allChanges (afterPage st p) = allChanges st @ p"
  "start (afterPage st p) = start st + length p"
  "hasMore (afterPage st p) = (length p = API_FETCH_LIMIT)"
  using API_FETCH_LIMIT_pos by (auto simp: afterPage_def Let_def)

lemma fetchLoop_stopped: "\<not> hasMore st \<Longrightarrow> fetchLoop parse rs st = ([], Returned (allChanges st))"
  by (cases rs) simp_all

lemma length_statesAlong: "length (statesAlong st ps) = length ps"
  by (induction ps arbitrary: st) simp_all

lemma fetchLoop_full_pages:
  assumes "map (decodeReply parse) rs = map Inr pages"
    and "\<forall>p\<in>set pages. length p = API_FETCH_LIMIT"
    and "hasMore st"
  shows "fetchLoop parse (rs @ later) st =
           (statesAlong st pages @ fst (fetchLoop parse later (foldl afterPage st pages)),
            snd (fetchLoop parse later (foldl afterPage st pages)))"
  using assms
proof (induction rs arbitrary: pages st)
  case Nil
  then show ?case by simp
next
  case (Cons r rs)
  then obtain p ps where pages: "pages = p # ps" and r: "decodeReply parse r = Inr p"
    and rs: "map (decodeReply parse) rs = map Inr ps"
    by (cases pages) auto
  have full: "length p = API_FETCH_LIMIT" and fulls: "\<forall>q\<in>set ps. length q = API_FETCH_LIMIT"
    using Cons.prems(2) pages by simp_all
  have hm: "hasMore (afterPage st p)"
    using full by (simp add: afterPage_fields)
  show ?case
    using Cons.IH [OF rs fulls hm] Cons.prems(3) r pages
    by (simp add: case_prod_beta)
qed

lemma foldl_afterPage_fields:
  "allChanges (foldl afterPage st pages) = allChanges st @ concat pages"
  "start (foldl afterPage st pages) = start st + length (concat pages)"
  by (induction pages arbitrary: st) (simp_all add: afterPage_fields)

lemma foldl_afterPage_hasMore:
  "hasMore st \<Longrightarrow> \<forall>p\<in>set pages. length p = API_FETCH_LIMIT \<Longrightarrow> hasMore (foldl afterPage st pages)"
  by (induction pages arbitrary: st) (simp_all add: afterPage_fields)

lemma fetchLoop_until_short:
  assumes "map (decodeReply parse) rs = map Inr (fullPages @ [lastPage])"
    and "\<forall>p\<in>set fullPages. length p = API_FETCH_LIMIT"
    and "length lastPage \<noteq> API_FETCH_LIMIT"
    and "hasMore st"
  shows "fetchLoop parse (rs @ later) st =
           (statesAlong st (fullPages @ [lastPage]),
            Returned (allChanges st @ concat fullPages @ lastPage))"
proof -
  obtain rs1 r where rs: "rs = rs1 @ [r]"
    using assms(1) by (cases rs rule: rev_cases) auto
  have d1: "map (decodeReply parse) rs1 = map Inr fullPages"
    and d2: "decodeReply parse r = Inr lastPage"
    using assms(1) rs by simp_all
  let ?st = "foldl afterPage st fullPages"
  have hm: "hasMore ?st"
    using assms(2,4) by (simp add: foldl_afterPage_hasMore)
  have stop: "\<not> hasMore (afterPage ?st lastPage)"
    using assms(3) by (simp add: afterPage_fields)
  have last: "fetchLoop parse (r # later) ?st =
      ([?st], Returned (allChanges st @ concat fullPages @ lastPage))"
    using hm d2 fetchLoop_stopped [OF stop, of parse later]
    by (simp add: afterPage_fields foldl_afterPage_fields)
  have sa: "statesAlong st (fullPages @ [lastPage]) = statesAlong st fullPages @ [?st]"
    by (induction fullPages arbitrary: st) simp_all
  show ?thesis
    using fetchLoop_full_pages [OF d1 assms(2,4), of "r # later"] last sa rs
    by simp
qed

lemma fetchLoop_until_error:
  assumes "map (decodeReply parse) rs = map Inr fullPages"
    and "\<forall>p\<in>set fullPages. length p = API_FETCH_LIMIT"
    and "\<not> ok bad"
    and "hasMore st"
  shows "fetchLoop parse (rs @ Response bad # later) st =
           (statesAlong st fullPages @ [foldl afterPage st fullPages],
            Threw (Error (apiErrorMessage bad)))"
proof -
  let ?st = "foldl afterPage st fullPages"
  have hm: "hasMore ?st"
    using assms(2,4) by (simp add: foldl_afterPage_hasMore)
  have "fetchLoop parse (Response bad # later) ?st = ([?st], Threw (Error (apiErrorMessage bad)))"
    using hm assms(3) by (simp add: decodeReply_def)
  then show ?thesis
    using fetchLoop_full_pages [OF assms(1,2,4), of "Response bad # later"] by simp
qed

lemma fetchMergedChanges_fields:
  "iterations (fetchMergedChanges parse base64 replies owner afterDate user pw) =
     fst (fetchLoop parse replies initialState)"
  "result (fetchMergedChanges parse base64 replies owner afterDate user pw) =
     snd (fetchLoop parse replies initialState)"
  "length (requests (fetchMergedChanges parse base64 replies owner afterDate user pw)) =
     length (fst (fetchLoop parse replies initialState))"
  "map url (requests (fetchMergedChanges parse base64 replies owner afterDate user pw)) =
     map (\<lambda>st. requestUrl owner afterDate (start st)) (fst (fetchLoop parse replies initialState))"
  by (simp_all add: fetchMergedChanges_def initialState_def case_prod_beta comp_def)

lemma initialState_fields:
  "allChanges initialState = []" "start initialState = 0" "hasMore initialState"
  by (simp_all add: initialState_def)

text \<open>
  C1. When the server answers with full pages followed by a page whose length is not the
  limit (a short page), the fetcher sends one request per page, stops after that page
  whatever the server would have answered later, and returns the pages joined in the
  order received. Pages of sizes [limit, limit, k] with k below the limit give three
  requests and 2 * limit + k changes; a full page followed by an empty page gives two
  requests and no error.
\<close>

theorem pagination_stops_at_short_page:
  assumes "map (decodeReply parse) rs = map Inr (fullPages @ [lastPage])"
    and "\<forall>p\<in>set fullPages. length p = API_FETCH_LIMIT"
    and "length lastPage \<noteq> API_FETCH_LIMIT"
  shows "length (requests (fetchMergedChanges parse base64 (rs @ later) owner afterDate user pw))
           = length fullPages + 1
    \<and> result (fetchMergedChanges parse base64 (rs @ later) owner afterDate user pw)
           = Returned (concat fullPages @ lastPage)
    \<and> length (concat fullPages @ lastPage)
           = length fullPages * API_FETCH_LIMIT + length lastPage"
proof -
  have "length (concat fullPages) = length fullPages * API_FETCH_LIMIT"
    using assms(2) by (induction fullPages) simp_all
  then show ?thesis
    using fetchLoop_until_short [OF assms initialState_fields(3), of later]
    by (simp add: fetchMergedChanges_fields initialState_fields length_statesAlong)
qed

theorem pagination_stops_at_short_page_witness:
  "length (requests (fetchMergedChanges sampleParse sampleBase64
       [okReply (js ''[full]''), okReply (js ''[full]''), okReply (js ''[few]'')]
       CL_OWNER (js ''2024-05-01'') (js ''git-paul'') (js ''secret''))) = 3
   \<and> result (fetchMergedChanges sampleParse sampleBase64
       [okReply (js ''[full]''), okReply (js ''[full]''), okReply (js ''[few]'')]
       CL_OWNER (js ''2024-05-01'') (js ''git-paul'') (js ''secret''))
     = Returned (replicate API_FETCH_LIMIT sampleChange @ replicate API_FETCH_LIMIT sampleChange
                 @ replicate 3 sampleChange)
   \<and> length (requests (fetchMergedChanges sampleParse sampleBase64
       [okReply (js ''[full]''), okReply (js ''[]'')]
       CL_OWNER (js ''2024-05-01'') (js ''git-paul'') (js ''secret''))) = 2
   \<and> result (fetchMergedChanges sampleParse sampleBase64
       [okReply (js ''[full]''), okReply (js ''[]'')]
       CL_OWNER (js ''2024-05-01'') (js ''git-paul'') (js ''secret''))
     = Returned (replicate API_FETCH_LIMIT sampleChange)"
proof -
  have d3: "map (decodeReply sampleParse)
        [okReply (js ''[full]''), okReply (js ''[full]''), okReply (js ''[few]'')] =
      map Inr ([replicate API_FETCH_LIMIT sampleChange, replicate API_FETCH_LIMIT sampleChange]
               @ [replicate 3 sampleChange])"
    by (simp add: decode_samples)
  have f3: "\<forall>p\<in>set [replicate API_FETCH_LIMIT sampleChange,
        replicate API_FETCH_LIMIT sampleChange]. length p = API_FETCH_LIMIT"
    by simp
  have s3: "length (replicate 3 sampleChange) \<noteq> API_FETCH_LIMIT"
    by (simp add: API_FETCH_LIMIT_def)
  have d2: "map (decodeReply sampleParse) [okReply (js ''[full]''), okReply (js ''[]'')] =
      map Inr ([replicate API_FETCH_LIMIT sampleChange] @ [[]])"
    by (simp add: decode_samples)
  have f2: "\<forall>p\<in>set [replicate API_FETCH_LIMIT sampleChange]. length p = API_FETCH_LIMIT"
    by simp
  have s2: "length ([] :: ChangeInfo list) \<noteq> API_FETCH_LIMIT"
    by (simp add: API_FETCH_LIMIT_def)
  from pagination_stops_at_short_page [OF d3 f3 s3, of sampleBase64 "[]" CL_OWNER
      "js ''2024-05-01''" "js ''git-paul''" "js ''secret''"]
    pagination_stops_at_short_page [OF d2 f2 s2, of sampleBase64 "[]" CL_OWNER
      "js ''2024-05-01''" "js ''git-paul''" "js ''secret''"]
  show ?thesis by simp
qed

lemma sublist_apiErrorMessage:
  "sublist (showNat (http_status bad)) (apiErrorMessage bad)"
  "sublist (body bad) (apiErrorMessage bad)"
proof -
  show "sublist (showNat (http_status bad)) (apiErrorMessage bad)"
    unfolding apiErrorMessage_def by (rule sublist_appendI)
  show "sublist (body bad) (apiErrorMessage bad)"
    unfolding apiErrorMessage_def
    by (simp only: append_assoc [symmetric] sublist_append_leftI)
qed

text \<open>
  C6. When a reply has a non-success status, after any number of full pages, the call
  throws an error whose message holds the status code and the body text, no request
  follows the failed one, the changes of the earlier pages are not returned, and the
  run writes no file and exits with code 1.
\<close>

theorem http_error_aborts_fetch:
  assumes "map (decodeReply (jsonParse env)) rs = map Inr fullPages"
    and "\<forall>p\<in>set fullPages. length p = API_FETCH_LIMIT"
    and "\<not> ok bad"
    and "serverReplies env = rs @ Response bad # later"
    and "getGerritCredentials (urlHostname env) (homeGitcookiesPath env) (gitcookiesFile env)
           GERRIT_SERVER_URL = Inr cr"
  shows "result (fetchMergedChanges (jsonParse env) (toBase64 env) (serverReplies env) CL_OWNER
                   (afterDateNow env) (username cr) (httpPassword cr))
           = Threw (Error (apiErrorMessage bad))
    \<and> sublist (showNat (http_status bad)) (apiErrorMessage bad)
    \<and> sublist (body bad) (apiErrorMessage bad)
    \<and> length (requests (fetchMergedChanges (jsonParse env) (toBase64 env) (serverReplies env)
                   CL_OWNER (afterDateNow env) (username cr) (httpPassword cr)))
           = length fullPages + 1
    \<and> length (sent (main env)) = length fullPages + 1
    \<and> written (main env) = None
    \<and> exitCode (main env) = Some 1"
proof -
  let ?out = "fetchMergedChanges (jsonParse env) (toBase64 env) (serverReplies env) CL_OWNER
                   (afterDateNow env) (username cr) (httpPassword cr)"
  have loop: "fetchLoop (jsonParse env) (serverReplies env) initialState =
      (statesAlong initialState fullPages @ [foldl afterPage initialState fullPages],
       Threw (Error (apiErrorMessage bad)))"
    using fetchLoop_until_error [OF assms(1,2,3) initialState_fields(3), of later] assms(4)
    by simp
  have res: "result ?out = Threw (Error (apiErrorMessage bad))"
    using loop by (simp add: fetchMergedChanges_fields)
  have len: "length (requests ?out) = length fullPages + 1"
    using loop by (simp add: fetchMergedChanges_fields length_statesAlong)
  have m: "main env = \<lparr>sent = requests ?out, written = None, warned = [], exitCode = Some 1\<rparr>"
    using assms(5) res by (simp add: main_def Let_def)
  show ?thesis
    using res len m sublist_apiErrorMessage [of bad] by simp
qed

lemma sample_credentials:
  "getGerritCredentials sampleHostname samplePath (Some sampleCookies) GERRIT_SERVER_URL =
     Inr \<lparr>username = js ''git-paul'', httpPassword = js ''secret''\<rparr>"
  by code_simp

lemma sample_error_message:
  "apiErrorMessage forbidden =
     js ''Gerrit API error: 403 - Forbidden'' @ [NL] @ js ''Response body: Access denied''"
  by (simp add: apiErrorMessage_def forbidden_def showNat.simps js_def)

theorem http_error_aborts_fetch_witness:
  "result (fetchMergedChanges sampleParse sampleBase64
       [okReply (js ''[full]''), Response forbidden, okReply (js ''[few]'')]
       CL_OWNER (js ''2023-12-04'') (js ''git-paul'') (js ''secret''))
     = Threw (Error (js ''Gerrit API error: 403 - Forbidden'' @ [NL]
                     @ js ''Response body: Access denied''))
   \<and> length (sent (main sampleEnv)) = 2
   \<and> written (main sampleEnv) = None
   \<and> exitCode (main sampleEnv) = Some 1"
proof -
  have d: "map (decodeReply (jsonParse sampleEnv)) [okReply (js ''[full]'')] =
      map Inr [replicate API_FETCH_LIMIT sampleChange]"
    by (simp add: sampleEnv_def decode_samples)
  have f: "\<forall>p\<in>set [replicate API_FETCH_LIMIT sampleChange]. length p = API_FETCH_LIMIT"
    by simp
  have b: "\<not> ok forbidden"
    by (simp add: forbidden_def)
  have r: "serverReplies sampleEnv =
      [okReply (js ''[full]'')] @ Response forbidden # [okReply (js ''[few]'')]"
    by (simp add: sampleEnv_def)
  have c: "getGerritCredentials (urlHostname sampleEnv) (homeGitcookiesPath sampleEnv)
      (gitcookiesFile sampleEnv) GERRIT_SERVER_URL =
        Inr \<lparr>username = js ''git-paul'', httpPassword = js ''secret''\<rparr>"
    by (simp add: sampleEnv_def sample_credentials)
  from http_error_aborts_fetch [OF d f b r c]
  show ?thesis
    by (simp add: sampleEnv_def sample_error_message)
qed

lemma fetchLoop_offset_invariant:
  "start st = length (allChanges st) \<Longrightarrow>
   \<forall>s\<in>set (fst (fetchLoop parse rs st)). start s = length (allChanges s)"
proof (induction rs arbitrary: st)
  case Nil
  then show ?case by simp
next
  case (Cons r rs)
  show ?case
  proof (cases "decodeReply parse r")
    case (Inl e)
    with Cons.prems show ?thesis by simp
  next
    case (Inr p)
    have "start (afterPage st p) = length (allChanges (afterPage st p))"
      using Cons.prems by (simp add: afterPage_fields)
    from Cons.IH [OF this] Cons.prems Inr show ?thesis
      by (simp add: case_prod_beta)
  qed
qed

lemma fetchLoop_accumulated:
  "i < length (fst (fetchLoop parse rs st)) \<Longrightarrow>
   \<exists>pages. map (decodeReply parse) (take i rs) = map Inr pages
      \<and> allChanges (fst (fetchLoop parse rs st) ! i) = allChanges st @ concat pages"
proof (induction rs arbitrary: st i)
  case Nil
  then have "i = 0" by (simp split: if_splits)
  with Nil show ?case by (simp split: if_splits)
next
  case (Cons r rs)
  show ?case
  proof (cases i)
    case 0
    with Cons.prems show ?thesis
      by (auto simp: case_prod_beta split: if_splits sum.splits)
  next
    case (Suc j)
    with Cons.prems obtain p where p: "decodeReply parse r = Inr p" and hm: "hasMore st"
      and j: "j < length (fst (fetchLoop parse rs (afterPage st p)))"
      by (auto simp: case_prod_beta split: if_splits sum.splits)
    from Cons.IH [OF j] obtain pages where
      pg: "map (decodeReply parse) (take j rs) = map Inr pages"
      and ac: "allChanges (fst (fetchLoop parse rs (afterPage st p)) ! j) =
          allChanges (afterPage st p) @ concat pages"
      by blast
    have "map (decodeReply parse) (take i (r # rs)) = map Inr (p # pages)"
      using Suc p pg by simp
    moreover have "allChanges (fst (fetchLoop parse (r # rs) st) ! i) =
        allChanges st @ concat (p # pages)"
      using Suc p hm ac by (simp add: case_prod_beta afterPage_fields)
    ultimately show ?thesis by blast
  qed
qed

lemma sublist_S_parameter:
  "sublist (js ''&S='' @ showNat n @ js ''&n='') (requestUrl owner afterDate n)"
proof -
  have "requestUrl owner afterDate n =
      (GERRIT_SERVER_URL @ js ''/a/changes/?q=status:merged+after:'' @ afterDate
         @ js ''+owner:'' @ owner @ js ''&o=CURRENT_COMMIT&o=CURRENT_REVISION'')
      @ (js ''&S='' @ showNat n @ js ''&n='') @ showNat API_FETCH_LIMIT"
    by (simp add: requestUrl_def js_def)
  then show ?thesis
    by (metis sublist_appendI)
qed

lemma sample_urls:
  "requestUrl CL_OWNER (js ''2024-05-01'') 0 =
     js ''https://fuchsia-review.googlesource.com/a/changes/?q=status:merged+after:2024-05-01+owner:you@gmail.com&o=CURRENT_COMMIT&o=CURRENT_REVISION&S=0&n=500''"
  "requestUrl CL_OWNER (js ''2024-05-01'') API_FETCH_LIMIT =
     js ''https://fuchsia-review.googlesource.com/a/changes/?q=status:merged+after:2024-05-01+owner:you@gmail.com&o=CURRENT_COMMIT&o=CURRENT_REVISION&S=500&n=500''"
  by code_simp+

text \<open>
  C10. In every state in which an iteration begins, \<open>start\<close> is the number of changes
  accumulated so far, which are the pages decoded so far joined together. One request is
  sent from each such state, and its URL holds \<open>&S=\<close> followed by the decimal digits of
  that number and \<open>&n=\<close>: the \<open>S\<close> parameter of every request is the number of changes
  already fetched.
\<close>

theorem offset_equals_accumulated_count:
  fixes parse base64 replies owner afterDate user pw
  defines "out \<equiv> fetchMergedChanges parse base64 replies owner afterDate user pw"
  shows "(\<forall>st\<in>set (iterations out). start st = length (allChanges st))
    \<and> map url (requests out) =
        map (\<lambda>st. requestUrl owner afterDate (length (allChanges st))) (iterations out)
    \<and> (\<forall>i<length (iterations out). \<exists>pages.
          map (decodeReply parse) (take i replies) = map Inr pages
          \<and> allChanges (iterations out ! i) = concat pages)
    \<and> length (requests out) = length (iterations out)
    \<and> (\<forall>i<length (iterations out).
          url (requests out ! i) =
            GERRIT_SERVER_URL @ js ''/a/changes/?q=status:merged+after:'' @ afterDate
              @ js ''+owner:'' @ owner @ js ''&o=CURRENT_COMMIT&o=CURRENT_REVISION&S=''
              @ showNat (length (allChanges (iterations out ! i)))
              @ js ''&n='' @ showNat API_FETCH_LIMIT
          \<and> sublist (js ''&S='' @ showNat (length (allChanges (iterations out ! i))) @ js ''&n='')
                (url (requests out ! i)))"
proof -
  have inv: "\<forall>st\<in>set (iterations out). start st = length (allChanges st)"
    unfolding out_def fetchMergedChanges_fields
    by (rule fetchLoop_offset_invariant) (simp add: initialState_fields)
  have urls: "map url (requests out) =
        map (\<lambda>st. requestUrl owner afterDate (length (allChanges st))) (iterations out)"
    using inv unfolding out_def fetchMergedChanges_fields by simp
  have acc: "\<forall>i<length (iterations out). \<exists>pages.
          map (decodeReply parse) (take i replies) = map Inr pages
          \<and> allChanges (iterations out ! i) = concat pages"
    unfolding out_def fetchMergedChanges_fields
    using fetchLoop_accumulated [of _ parse replies initialState]
    by (simp add: initialState_fields)
  have len: "length (requests out) = length (iterations out)"
    unfolding out_def fetchMergedChanges_fields by simp
  have each: "url (requests out ! i) =
      requestUrl owner afterDate (length (allChanges (iterations out ! i)))"
    if "i < length (iterations out)" for i
  proof -
    have "url (requests out ! i) = map url (requests out) ! i"
      using that len by simp
    also have "\<dots> = requestUrl owner afterDate (length (allChanges (iterations out ! i)))"
      using that by (simp add: urls)
    finally show ?thesis .
  qed
  have pinned: "\<forall>i<length (iterations out).
          url (requests out ! i) =
            GERRIT_SERVER_URL @ js ''/a/changes/?q=status:merged+after:'' @ afterDate
              @ js ''+owner:'' @ owner @ js ''&o=CURRENT_COMMIT&o=CURRENT_REVISION&S=''
              @ showNat (length (allChanges (iterations out ! i)))
              @ js ''&n='' @ showNat API_FETCH_LIMIT
          \<and> sublist (js ''&S='' @ showNat (length (allChanges (iterations out ! i))) @ js ''&n='')
                (url (requests out ! i))"
    using each sublist_S_parameter by (simp add: requestUrl_def)
  from inv urls acc len pinned show ?thesis by blast
qed

theorem offset_equals_accumulated_count_witness:
  "map start (iterations (fetchMergedChanges sampleParse sampleBase64
       [okReply (js ''[full]''), okReply (js ''[few]'')]
       CL_OWNER (js ''2024-05-01'') (js ''git-paul'') (js ''secret''))) = [0, API_FETCH_LIMIT]
   \<and> map (\<lambda>st. length (allChanges st)) (iterations (fetchMergedChanges sampleParse sampleBase64
       [okReply (js ''[full]''), okReply (js ''[few]'')]
       CL_OWNER (js ''2024-05-01'') (js ''git-paul'') (js ''secret''))) = [0, API_FETCH_LIMIT]
   \<and> map url (requests (fetchMergedChanges sampleParse sampleBase64
       [okReply (js ''[full]''), okReply (js ''[few]'')]
       CL_OWNER (js ''2024-05-01'') (js ''git-paul'') (js ''secret''))) =
     [js ''https://fuchsia-review.googlesource.com/a/changes/?q=status:merged+after:2024-05-01+owner:you@gmail.com&o=CURRENT_COMMIT&o=CURRENT_REVISION&S=0&n=500'',
      js ''https://fuchsia-review.googlesource.com/a/changes/?q=status:merged+after:2024-05-01+owner:you@gmail.com&o=CURRENT_COMMIT&o=CURRENT_REVISION&S=500&n=500'']"
proof -
  let ?out = "fetchMergedChanges sampleParse sampleBase64
       [okReply (js ''[full]''), okReply (js ''[few]'')]
       CL_OWNER (js ''2024-05-01'') (js ''git-paul'') (js ''secret'')"
  have d: "map (decodeReply sampleParse) [okReply (js ''[full]''), okReply (js ''[few]'')] =
      map Inr ([replicate API_FETCH_LIMIT sampleChange] @ [replicate 3 sampleChange])"
    by (simp add: decode_samples)
  have f: "\<forall>p\<in>set [replicate API_FETCH_LIMIT sampleChange]. length p = API_FETCH_LIMIT"
    by simp
  have s: "length (replicate 3 sampleChange) \<noteq> API_FETCH_LIMIT"
    by (simp add: API_FETCH_LIMIT_def)
  have its: "iterations ?out =
      statesAlong initialState [replicate API_FETCH_LIMIT sampleChange, replicate 3 sampleChange]"
    using fetchLoop_until_short [OF d f s initialState_fields(3), of "[]"]
    by (simp add: fetchMergedChanges_fields)
  have counts: "map (\<lambda>st. length (allChanges st)) (iterations ?out) = [0, API_FETCH_LIMIT]"
    unfolding its by (simp add: afterPage_fields initialState_fields)
  note inst = offset_equals_accumulated_count [of sampleParse sampleBase64
        "[okReply (js ''[full]''), okReply (js ''[few]'')]" CL_OWNER "js ''2024-05-01''"
        "js ''git-paul''" "js ''secret''"]
  have "\<forall>st\<in>set (iterations ?out). start st = length (allChanges st)"
    using inst by blast
  then have starts: "map start (iterations ?out) =
      map (\<lambda>st. length (allChanges st)) (iterations ?out)"
    by simp
  have "map url (requests ?out) =
      map (requestUrl CL_OWNER (js ''2024-05-01''))
        (map (\<lambda>st. length (allChanges st)) (iterations ?out))"
    using inst by (simp add: comp_def)
  then have "map url (requests ?out) =
      [requestUrl CL_OWNER (js ''2024-05-01'') 0,
       requestUrl CL_OWNER (js ''2024-05-01'') API_FETCH_LIMIT]"
    by (simp add: counts)
  then show ?thesis
    using starts counts by (simp add: sample_urls)
qed

section \<open>Properties of the renderer\<close>

lemma renderLoop_eq:
  "renderLoop loc cs (md, ws) =
     (md @ concat (map (renderSection loc) cs), ws @ concat (map warningsFor cs))"
  by (induction cs arbitrary: md ws)
    (simp_all add: renderSection_def warningsFor_def split: option.splits)

lemma buildMarkdown_eq:
  "buildMarkdown g gt loc cs =
     (documentHeader g @ documentBody gt loc cs,
      concat (map warningsFor (sortJS (compareSubmitted gt) cs)))"
  by (cases cs) (simp_all add: buildMarkdown_def documentBody_def renderLoop_eq)

lemma mset_insertSorted: "mset (insertSorted cmp x ys) = add_mset x (mset ys)"
  by (induction ys) simp_all

lemma mset_sortJS: "mset (sortJS cmp xs) = mset xs"
  by (induction xs) (simp_all add: mset_insertSorted)

lemma set_sortJS: "set (sortJS cmp xs) = set xs"
  by (metis mset_sortJS set_mset_mset)

lemma compare_timestamps:
  assumes "gt (submitted a) = Some ta" and "gt (submitted b) = Some tb"
  shows "sortCompare (compareSubmitted gt) a b = tb - ta"
  using assms by (simp add: sortCompare_def compareSubmitted_def)

lemma notOlder_insertSorted:
  assumes "hasTimestamp gt x" and "\<forall>y\<in>set ys. hasTimestamp gt y"
    and "sorted_wrt (notOlder gt) ys"
  shows "sorted_wrt (notOlder gt) (insertSorted (compareSubmitted gt) x ys)"
  using assms
proof (induction ys)
  case Nil
  then show ?case by simp
next
  case (Cons y ys)
  obtain tx ty where tx: "gt (submitted x) = Some tx" and ty: "gt (submitted y) = Some ty"
    using Cons.prems(1,2) by (auto simp: hasTimestamp_def)
  show ?case
  proof (cases "sortCompare (compareSubmitted gt) x y \<le> 0")
    case True
    then have xy: "ty \<le> tx"
      using compare_timestamps [OF tx ty] by simp
    have "notOlder gt x z" if "z \<in> set ys" for z
    proof -
      have "notOlder gt y z" using Cons.prems(3) that by simp
      then show ?thesis
        using xy tx ty by (auto simp: notOlder_def split: option.splits)
    qed
    moreover have "notOlder gt x y"
      using xy tx ty by (simp add: notOlder_def)
    ultimately show ?thesis
      using True Cons.prems(3) by simp
  next
    case False
    then have yx: "tx < ty"
      using compare_timestamps [OF tx ty] by simp
    have ih: "sorted_wrt (notOlder gt) (insertSorted (compareSubmitted gt) x ys)"
      using Cons by simp
    have "notOlder gt y x"
      using yx tx ty by (simp add: notOlder_def)
    moreover have "set (insertSorted (compareSubmitted gt) x ys) = insert x (set ys)"
      by (metis mset_insertSorted set_mset_add_mset_insert set_mset_mset)
    ultimately show ?thesis
      using False ih Cons.prems(3) by auto
  qed
qed

lemma notOlder_sortJS:
  "\<forall>c\<in>set cs. hasTimestamp gt c \<Longrightarrow> sorted_wrt (notOlder gt) (sortJS (compareSubmitted gt) cs)"
  by (induction cs) (simp_all add: notOlder_insertSorted set_sortJS)

lemma filter_insertSorted:
  assumes "hasTimestamp gt x" and "\<forall>y\<in>set ys. hasTimestamp gt y"
  shows "filter (\<lambda>c. gt (submitted c) = Some t) (insertSorted (compareSubmitted gt) x ys) =
         filter (\<lambda>c. gt (submitted c) = Some t) (x # ys)"
  using assms
proof (induction ys)
  case Nil
  then show ?case by simp
next
  case (Cons y ys)
  obtain tx ty where tx: "gt (submitted x) = Some tx" and ty: "gt (submitted y) = Some ty"
    using Cons.prems by (auto simp: hasTimestamp_def)
  show ?case
  proof (cases "sortCompare (compareSubmitted gt) x y \<le> 0")
    case True
    then show ?thesis by simp
  next
    case False
    then have "tx < ty"
      using compare_timestamps [OF tx ty] by simp
    then have "\<not> (gt (submitted x) = Some t \<and> gt (submitted y) = Some t)"
      using tx ty by auto
    then show ?thesis
      using False Cons by auto
  qed
qed

lemma filter_sortJS:
  "\<forall>c\<in>set cs. hasTimestamp gt c \<Longrightarrow>
   filter (\<lambda>c. gt (submitted c) = Some t) (sortJS (compareSubmitted gt) cs) =
   filter (\<lambda>c. gt (submitted c) = Some t) cs"
  by (induction cs) (simp_all add: filter_insertSorted set_sortJS)

lemma sample_times:
  "sampleGetTime (submitted sampleChange) = Some 1704189600000"
  "sampleGetTime (submitted laterChange) = Some 1709627400000"
  "sampleGetTime (submitted tiedChange) = Some 1704189600000"
  by (simp_all add: sampleGetTime_def sampleChange_def laterChange_def tiedChange_def js_def)

lemma sample_order:
  "sortJS (compareSubmitted sampleGetTime) [sampleChange, laterChange, tiedChange] =
     [laterChange, sampleChange, tiedChange]"
  by (simp add: sortCompare_def compareSubmitted_def sample_times)

text \<open>
  C4. For a non-empty list of changes whose timestamps all parse, the document is the
  header followed by one section per change in sorted order; the sorted list is a
  rearrangement of the fetched one, is non-increasing by submission time, and keeps the
  changes of equal submission time in their fetched order.
\<close>

theorem sections_newest_first_stable:
  assumes "mergedChanges \<noteq> []"
    and "\<forall>c\<in>set mergedChanges. hasTimestamp getTime c"
  shows "fst (buildMarkdown generatedOn getTime toLocaleString mergedChanges) =
           documentHeader generatedOn
           @ concat (map (renderSection toLocaleString)
                      (sortJS (compareSubmitted getTime) mergedChanges))
    \<and> mset (sortJS (compareSubmitted getTime) mergedChanges) = mset mergedChanges
    \<and> sorted_wrt (notOlder getTime) (sortJS (compareSubmitted getTime) mergedChanges)
    \<and> (\<forall>t. filter (\<lambda>c. getTime (submitted c) = Some t)
               (sortJS (compareSubmitted getTime) mergedChanges) =
             filter (\<lambda>c. getTime (submitted c) = Some t) mergedChanges)"
  using assms
  by (simp add: buildMarkdown_eq documentBody_def mset_sortJS notOlder_sortJS filter_sortJS)

theorem sections_newest_first_stable_witness:
  "fst (buildMarkdown (js ''2024-06-01 12:00:00'') sampleGetTime sampleLocale
          [sampleChange, laterChange, tiedChange]) =
     documentHeader (js ''2024-06-01 12:00:00'')
     @ concat (map (renderSection sampleLocale) [laterChange, sampleChange, tiedChange])
   \<and> sorted_wrt (notOlder sampleGetTime) [laterChange, sampleChange, tiedChange]
   \<and> filter (\<lambda>c. sampleGetTime (submitted c) = Some 1704189600000)
        [laterChange, sampleChange, tiedChange] = [sampleChange, tiedChange]"
proof -
  have ne: "[sampleChange, laterChange, tiedChange] \<noteq> []"
    by simp
  have ts: "\<forall>c\<in>set [sampleChange, laterChange, tiedChange]. hasTimestamp sampleGetTime c"
    by (simp add: hasTimestamp_def sample_times)
  have "filter (\<lambda>c. sampleGetTime (submitted c) = Some 1704189600000)
        [sampleChange, laterChange, tiedChange] = [sampleChange, tiedChange]"
    by (simp add: sample_times)
  with sections_newest_first_stable [OF ne ts, of "js ''2024-06-01 12:00:00''" sampleLocale]
  show ?thesis
    unfolding sample_order by simp
qed









lemma documentHeader_inj: "documentHeader g1 = documentHeader g2 \<longleftrightarrow> g1 = g2"
proof -
  define A where "A = js ''# Merged Gerrit CL Commit Messages (Last '' @ showNat DAYS_TO_LOOK_BACK
       @ js '' Days)'' @ [NL, NL] @ js ''*Generated on: ''"
  define B where "B = js ''*'' @ [NL, NL]
     @ js ''This document lists the commit messages (CL summary descriptions) from merged Gerrit Code Reviews submitted in the last ''
       @ showNat DAYS_TO_LOOK_BACK @ js '' days.'' @ [NL, NL]"
  have "documentHeader g = A @ g @ B" for g
    by (simp add: documentHeader_def A_def B_def)
  then show ?thesis by simp
qed

lemma sortJS_sorted:
  assumes "\<forall>c\<in>set cs. hasTimestamp gt c" and "sorted_wrt (notOlder gt) cs"
  shows "sortJS (compareSubmitted gt) cs = cs"
  using assms
proof (induction cs)
  case Nil
  then show ?case by simp
next
  case (Cons x xs)
  then have ih: "sortJS (compareSubmitted gt) xs = xs"
    by simp
  show ?case
  proof (cases xs)
    case Nil
    then show ?thesis by simp
  next
    case (Cons y ys)
    then have "notOlder gt x y"
      using Cons.prems(2) by simp
    then have "sortCompare (compareSubmitted gt) x y \<le> 0"
      by (auto simp: notOlder_def sortCompare_def compareSubmitted_def split: option.splits)
    then show ?thesis
      using ih Cons by simp
  qed
qed

lemma sortJS_idem:
  "\<forall>c\<in>set cs. hasTimestamp gt c \<Longrightarrow>
   sortJS (compareSubmitted gt) (sortJS (compareSubmitted gt) cs) = sortJS (compareSubmitted gt) cs"
  by (rule sortJS_sorted) (simp_all add: set_sortJS notOlder_sortJS)

lemma sortJS_Nil_iff: "sortJS cmp cs = [] \<longleftrightarrow> cs = []"
  by (metis mset_sortJS mset_zero_iff)

text \<open>
  C8, as stated, fails on the code: the header holds the time at which the document is
  generated, so two runs over the same changes one second apart differ.
\<close>

theorem rendering_twice_counterexample:
  "fst (buildMarkdown (js ''2024-06-01 12:00:00'') sampleGetTime sampleLocale [sampleChange]) \<noteq>
   fst (buildMarkdown (js ''2024-06-01 12:00:01'') sampleGetTime sampleLocale [sampleChange])"
  by (simp add: buildMarkdown_eq documentHeader_inj js_def)

text \<open>
  C8, amended. Two renderings of the same changes (with the same date functions) are
  equal exactly when the two runs format the same generation time: the document is the
  header, which holds that time, followed by a body that does not depend on it; the
  warnings are the same; and rendering again from the list as the first run left it
  (sorted in place) gives the same body.
\<close>

theorem rendering_equal_iff_same_clock:
  "(fst (buildMarkdown g1 getTime toLocaleString mergedChanges) =
      fst (buildMarkdown g2 getTime toLocaleString mergedChanges) \<longleftrightarrow> g1 = g2)
   \<and> fst (buildMarkdown g1 getTime toLocaleString mergedChanges) =
       documentHeader g1 @ documentBody getTime toLocaleString mergedChanges
   \<and> snd (buildMarkdown g1 getTime toLocaleString mergedChanges) =
       snd (buildMarkdown g2 getTime toLocaleString mergedChanges)
   \<and> ((\<forall>c\<in>set mergedChanges. hasTimestamp getTime c) \<longrightarrow>
        documentBody getTime toLocaleString (sortJS (compareSubmitted getTime) mergedChanges) =
        documentBody getTime toLocaleString mergedChanges)"
  by (simp add: buildMarkdown_eq documentHeader_inj documentBody_def sortJS_idem sortJS_Nil_iff)

theorem rendering_equal_iff_same_clock_witness:
  "fst (buildMarkdown (js ''2024-06-01 12:00:00'') sampleGetTime sampleLocale
          [sampleChange, laterChange, tiedChange]) =
     documentHeader (js ''2024-06-01 12:00:00'')
       @ documentBody sampleGetTime sampleLocale [sampleChange, laterChange, tiedChange]
   \<and> documentBody sampleGetTime sampleLocale
        (sortJS (compareSubmitted sampleGetTime) [sampleChange, laterChange, tiedChange]) =
      documentBody sampleGetTime sampleLocale [sampleChange, laterChange, tiedChange]"
proof -
  have ts: "\<forall>c\<in>set [sampleChange, laterChange, tiedChange]. hasTimestamp sampleGetTime c"
    by (simp add: hasTimestamp_def sample_times)
  from rendering_equal_iff_same_clock [of "js ''2024-06-01 12:00:00''" sampleGetTime sampleLocale
      "[sampleChange, laterChange, tiedChange]" "js ''2024-06-01 12:00:00''"] ts
  show ?thesis by blast
qed

end
